theory Spec2Isabelle
  imports Main "HOL-Library.Multiset"
begin

text \<open>
  The manager of active C/C++ build configurations of
  \<open>packages/cpp/src/browser/cpp-build-configurations.ts\<close>: one active configuration per
  workspace root, kept in a \<open>Map\<close>, written to the storage service on every change and
  announced on two events. Every method is a function from the manager before the call
  to the result of the call: the manager after it, or the error that was thrown.
\<close>

section \<open>JavaScript values the component works with\<close>

text \<open>
  Objects are handled by reference: a configuration object and the object held in its
  \<open>commands\<close> field are addresses, and \<open>===\<close> on them is equality of addresses.
  The component never writes to a configuration object, so the objects themselves are
  read through a fixed \<open>heap\<close> that maps an address to the fields stored there.
\<close>

type_synonym objref = nat

datatype js_error = TypeError

subsection \<open>\<open>Map<K, V>\<close>\<close>

text \<open>
  A JavaScript \<open>Map\<close> keeps its entries in insertion order and never holds a key twice.
  \<open>set\<close> overwrites the value of a key that is present, in place, and appends a new
  key at the end. \<open>entries\<close> is what \<open>[...m.entries()]\<close> yields.
\<close>

typedef ('k, 'v) js_map = "{es :: ('k \<times> 'v) list. distinct (map fst es)}"
  morphisms entries Abs_js_map
  by (rule exI [of _ "[]"]) simp

setup_lifting type_definition_js_map

fun set_entry :: "'k \<Rightarrow> 'v \<Rightarrow> ('k \<times> 'v) list \<Rightarrow> ('k \<times> 'v) list" where
  "set_entry k v [] = [(k, v)]"
| "set_entry k v (e # es) = (if fst e = k then (k, v) # es else e # set_entry k v es)"

lift_definition Map_empty :: "('k, 'v) js_map" is "[]"
  by simp

lift_definition Map_set :: "'k \<Rightarrow> 'v \<Rightarrow> ('k, 'v) js_map \<Rightarrow> ('k, 'v) js_map" is set_entry
proof -
  fix k :: 'k and v :: 'v and es :: "('k \<times> 'v) list"
  have keys: "map fst (set_entry k v es) =
      (if k \<in> fst ` set es then map fst es else map fst es @ [k])"
    by (induction es) auto
  assume "distinct (map fst es)"
  then show "distinct (map fst (set_entry k v es))"
    by (simp add: keys)
qed

definition Map_find :: "('k, 'v) js_map \<Rightarrow> 'k \<Rightarrow> 'v option" where
  \<comment> \<open>\<open>has\<close> and \<open>get\<close> in one: \<open>None\<close> when the key is not in the map.\<close>
  "Map_find m k = map_of (entries m) k"

definition Map_has :: "('k, 'v) js_map \<Rightarrow> 'k \<Rightarrow> bool" where
  "Map_has m k = (Map_find m k \<noteq> None)"

definition Map_get :: "('k, 'v option) js_map \<Rightarrow> 'k \<Rightarrow> 'v option" where
  \<comment> \<open>\<open>m.get(k)\<close> of a \<open>Map<K, V | undefined>\<close>: \<open>undefined\<close> for a missing key
      and for a key that holds \<open>undefined\<close>.\<close>
  "Map_get m k = (case Map_find m k of None \<Rightarrow> None | Some v \<Rightarrow> v)"

definition Map_new :: "('k \<times> 'v) list \<Rightarrow> ('k, 'v) js_map" where
  \<comment> \<open>\<open>new Map(iterable)\<close>: the pairs are \<open>set\<close> one after the other.\<close>
  "Map_new es = foldl (\<lambda>m e. Map_set (fst e) (snd e) m) Map_empty es"

subsection \<open>Arrays\<close>

text \<open>
  \<open>Array.prototype.sort(compareFn)\<close> is a builtin: the language fixes that the sort is
  stable and that \<open>compareFn a b \<le> 0\<close> keeps \<open>a\<close> before \<open>b\<close>, not the algorithm.
  It is modelled by a stable insertion sort. \<open>filter\<close> and \<open>some\<close> are \<open>filter\<close> and
  \<open>list_ex\<close>; \<open>Array.from\<close> copies and is the identity on values.
\<close>

fun insert_by :: "('a \<Rightarrow> 'a \<Rightarrow> int) \<Rightarrow> 'a \<Rightarrow> 'a list \<Rightarrow> 'a list" where
  "insert_by compareFn x [] = [x]"
| "insert_by compareFn x (y # ys) =
     (if compareFn x y \<le> 0 then x # y # ys else y # insert_by compareFn x ys)"

definition Array_sort :: "('a \<Rightarrow> 'a \<Rightarrow> int) \<Rightarrow> 'a list \<Rightarrow> 'a list" where
  "Array_sort compareFn xs = foldr (insert_by compareFn) xs []"

section \<open>Build configurations\<close>

text \<open>
  Modelled from the spec: the interface \<open>CppBuildConfiguration\<close> is declared in
  \<open>../common/cpp-build-configuration-protocol\<close>, which is not among the sources. The spec
  gives it a \<open>name\<close>, a \<open>directory\<close> and \<open>commands\<close>, an opaque reference compared by
  identity; \<open>commands\<close> is optional, so the field holds a reference or \<open>undefined\<close>.
\<close>

record CppBuildConfiguration =
  name :: string
  directory :: string
  commands :: "objref option"

definition equals :: "CppBuildConfiguration \<Rightarrow> CppBuildConfiguration \<Rightarrow> bool" where
  \<comment> \<open>the exported function \<open>equals\<close>\<close>
  "equals a b = (name a = name b \<and> directory a = directory b \<and> commands a = commands b)"

record SavedActiveBuildConfigurations =
  configs :: "(string \<times> objref option) list"

section \<open>The collaborators\<close>

text \<open>
  The preference proxy, the storage service and the workspace service are injected.
  The manager reads a preference as a property (\<open>cppPreferences[key]\<close>, \<open>undefined\<close> when
  unset) or scoped to a resource (\<open>cppPreferences.get(key, default, root)\<close>); it asks the
  workspace service for \<open>tryGetRoots()\<close>, of which it reads \<open>uri\<close>.
\<close>

record CppPreferences =
  property :: "string \<Rightarrow> objref list option"
  scoped :: "string \<Rightarrow> string \<Rightarrow> objref list option"

definition CppPreferences_get :: "CppPreferences \<Rightarrow> string \<Rightarrow> objref list \<Rightarrow> string \<Rightarrow> objref list" where
  "CppPreferences_get prefs key defaultValue resourceUri =
     (case scoped prefs key resourceUri of None \<Rightarrow> defaultValue | Some v \<Rightarrow> v)"

record FileStat =
  uri :: string

text \<open>
  Modelled from the spec: the \<open>StorageService\<close> of the core package is not among the
  sources. The spec's contract is a durable store read and written by key,
  \<open>get(key) \<rightarrow> optional<T>\<close> and \<open>set(key, value: T) \<rightarrow> void\<close>: \<open>getData\<close> yields the
  value last given to \<open>setData\<close> under the key, \<open>undefined\<close> when there is none.
\<close>

type_synonym StorageService = "string \<Rightarrow> SavedActiveBuildConfigurations option"

definition getData :: "StorageService \<Rightarrow> string \<Rightarrow> SavedActiveBuildConfigurations option" where
  "getData storage key = storage key"

definition setData :: "StorageService \<Rightarrow> string \<Rightarrow> SavedActiveBuildConfigurations \<Rightarrow> StorageService" where
  "setData storage key data = storage(key \<mapsto> data)"

section \<open>The manager\<close>

datatype event =
  ActiveConfigChange2 "(string, objref) js_map"
| ActiveConfigChange "objref option"

text \<open>
  The fields of \<open>CppBuildConfigurationManagerImpl\<close>. The two emitters are one log of what
  was fired, in order: \<open>ActiveConfigChange2\<close> is an emission of
  \<open>activeConfigChange2Emitter\<close>, \<open>ActiveConfigChange\<close> one of \<open>activeConfigChangeEmitter\<close>.
  \<open>heap\<close> and \<open>localeCompare\<close> belong to the runtime the manager lives in: the objects
  behind the references, and the collation of \<open>String.prototype.localeCompare\<close>.
\<close>

record CppBuildConfigurationManagerImpl =
  heap :: "objref \<Rightarrow> CppBuildConfiguration"
  localeCompare :: "string \<Rightarrow> string \<Rightarrow> int"
  cppPreferences :: CppPreferences
  storageService :: StorageService
  workspaceService :: "FileStat list"
  activeConfigs :: "(string, objref option) js_map"
  fired :: "event list"

definition CPP_BUILD_CONFIGURATIONS_PREFERENCE_KEY :: string where
  "CPP_BUILD_CONFIGURATIONS_PREFERENCE_KEY = ''cpp.buildConfigurations''"

definition ACTIVE_BUILD_CONFIGURATIONS_MAP_STORAGE_KEY :: string where
  "ACTIVE_BUILD_CONFIGURATIONS_MAP_STORAGE_KEY = ''cpp.active-build-configurations-map''"

definition fire :: "event \<Rightarrow> CppBuildConfigurationManagerImpl \<Rightarrow> CppBuildConfigurationManagerImpl" where
  "fire e this = this\<lparr>fired := fired this @ [e]\<rparr>"

definition loadActiveConfiguration :: "CppBuildConfigurationManagerImpl \<Rightarrow> CppBuildConfigurationManagerImpl" where
  "loadActiveConfiguration this =
     (case getData (storageService this) ACTIVE_BUILD_CONFIGURATIONS_MAP_STORAGE_KEY of
        None \<Rightarrow> this
      | Some savedConfig \<Rightarrow> this\<lparr>activeConfigs := Map_new (configs savedConfig)\<rparr>)"

definition saveActiveConfiguration ::
  "(string, objref option) js_map \<Rightarrow> CppBuildConfigurationManagerImpl \<Rightarrow> CppBuildConfigurationManagerImpl" where
  "saveActiveConfiguration cfgs this =
     this\<lparr>storageService := setData (storageService this)
        ACTIVE_BUILD_CONFIGURATIONS_MAP_STORAGE_KEY \<lparr>configs = entries cfgs\<rparr>\<rparr>"

definition CppBuildConfigurationManagerImpl_equals ::
  "CppBuildConfiguration \<Rightarrow> CppBuildConfiguration \<Rightarrow> bool" where
  \<comment> \<open>the protected method \<open>equals\<close> of the class\<close>
  "CppBuildConfigurationManagerImpl_equals a b = (name a = name b \<and> directory a = directory b)"

definition workspaceRoot :: "string option \<Rightarrow> CppBuildConfigurationManagerImpl \<Rightarrow> js_error + string" where
  \<comment> \<open>\<open>root ? root : this.workspaceService.tryGetRoots()[0].uri\<close>. An omitted root and
      the empty string are falsy. Element 0 of an empty array is \<open>undefined\<close>, and reading
      \<open>uri\<close> of it throws.\<close>
  "workspaceRoot root this =
     (if root \<noteq> None \<and> root \<noteq> Some [] then Inr (the root)
      else (case workspaceService this of [] \<Rightarrow> Inl TypeError | r # _ \<Rightarrow> Inr (uri r)))"

definition getActiveConfig ::
  "string option \<Rightarrow> CppBuildConfigurationManagerImpl \<Rightarrow> js_error + objref option" where
  "getActiveConfig root this =
     (case workspaceRoot root this of
        Inl e \<Rightarrow> Inl e
      | Inr w \<Rightarrow> Inr (Map_get (activeConfigs this) w))"

definition getAllActiveConfigs :: "CppBuildConfigurationManagerImpl \<Rightarrow> (string, objref option) js_map" where
  "getAllActiveConfigs this = activeConfigs this"

fun activeConfigurations_loop ::
  "(string \<times> objref option) list \<Rightarrow> (string, objref) js_map \<Rightarrow> (string, objref) js_map" where
  \<comment> \<open>the \<open>for ... of\<close> loop of \<open>setActiveConfig\<close>\<close>
  "activeConfigurations_loop [] activeConfigurations = activeConfigurations"
| "activeConfigurations_loop ((source, cppConfig) # rest) activeConfigurations =
     (case cppConfig of
        None \<Rightarrow> activeConfigurations_loop rest activeConfigurations
      | Some c \<Rightarrow> activeConfigurations_loop rest (Map_set source c activeConfigurations))"

definition setActiveConfig ::
  "objref option \<Rightarrow> string option \<Rightarrow> CppBuildConfigurationManagerImpl
     \<Rightarrow> js_error + CppBuildConfigurationManagerImpl" where
  "setActiveConfig config root this =
     (case workspaceRoot root this of
        Inl e \<Rightarrow> Inl e
      | Inr w \<Rightarrow>
          let this1 = this\<lparr>activeConfigs := Map_set w config (activeConfigs this)\<rparr>;
              this2 = saveActiveConfiguration (activeConfigs this1) this1;
              activeConfigurations =
                activeConfigurations_loop (entries (getAllActiveConfigs this2)) Map_empty
          in Inr (fire (ActiveConfigChange config)
                   (fire (ActiveConfigChange2 activeConfigurations) this2)))"

definition getConfigs :: "string option \<Rightarrow> CppBuildConfigurationManagerImpl \<Rightarrow> objref list" where
  "getConfigs root this =
     (if root \<noteq> None \<and> root \<noteq> Some []
      then CppPreferences_get (cppPreferences this) CPP_BUILD_CONFIGURATIONS_PREFERENCE_KEY [] (the root)
      else (case property (cppPreferences this) CPP_BUILD_CONFIGURATIONS_PREFERENCE_KEY of
              None \<Rightarrow> [] | Some cs \<Rightarrow> cs))"

definition getValidConfigs :: "string option \<Rightarrow> CppBuildConfigurationManagerImpl \<Rightarrow> objref list" where
  "getValidConfigs root this =
     Array_sort (\<lambda>a b. localeCompare this (name (heap this a)) (name (heap this b)))
       (filter (\<lambda>a. name (heap this a) \<noteq> [] \<and> directory (heap this a) \<noteq> [])
          (getConfigs root this))"

definition handlePreferencesUpdate ::
  "CppBuildConfigurationManagerImpl \<Rightarrow> js_error + CppBuildConfigurationManagerImpl" where
  "handlePreferencesUpdate this =
     (case getActiveConfig None this of
        Inl e \<Rightarrow> Inl e
      | Inr active \<Rightarrow>
          let valid =
                (case active of
                   Some act \<Rightarrow>
                     list_ex (\<lambda>a. CppBuildConfigurationManagerImpl_equals (heap this a) (heap this act))
                       (getValidConfigs None this)
                 | None \<Rightarrow> False)
          in if \<not> valid then setActiveConfig None None this else Inr this)"

text \<open>
  A manager as the class constructs it: the field initialisers give an empty map, and
  nothing has been fired.
\<close>

definition CppBuildConfigurationManagerImpl_new ::
  "(objref \<Rightarrow> CppBuildConfiguration) \<Rightarrow> (string \<Rightarrow> string \<Rightarrow> int) \<Rightarrow> CppPreferences
     \<Rightarrow> StorageService \<Rightarrow> FileStat list \<Rightarrow> CppBuildConfigurationManagerImpl" where
  "CppBuildConfigurationManagerImpl_new h cmp prefs storage roots =
     \<lparr>heap = h, localeCompare = cmp, cppPreferences = prefs, storageService = storage,
      workspaceService = roots, activeConfigs = Map_empty, fired = []\<rparr>"

text \<open>
  The manager that a call of \<open>setActiveConfig\<close> leaves behind once the target root is
  known to be \<open>w\<close>: the three assignments of the method body in one record update. It
  is used to state the effect of a call; \<open>setActiveConfig_after\<close> below derives it
  from the method.
\<close>

definition after_setActiveConfig ::
  "objref option \<Rightarrow> string \<Rightarrow> CppBuildConfigurationManagerImpl \<Rightarrow> CppBuildConfigurationManagerImpl" where
  "after_setActiveConfig config w this =
     this\<lparr>activeConfigs := Map_set w config (activeConfigs this),
          storageService := setData (storageService this)
             ACTIVE_BUILD_CONFIGURATIONS_MAP_STORAGE_KEY
             \<lparr>configs = entries (Map_set w config (activeConfigs this))\<rparr>,
          fired := fired this @
            [ActiveConfigChange2
               (activeConfigurations_loop (entries (Map_set w config (activeConfigs this)))
                  Map_empty),
             ActiveConfigChange config]\<rparr>"

section \<open>Concrete inputs\<close>

text \<open>
  Four configuration objects, the second with a blank name; a collation that orders
  strings by their code units; preferences that list three of the objects; a manager
  over a given list of workspace roots with an empty store.
\<close>

definition example_heap :: "objref \<Rightarrow> CppBuildConfiguration" where
  "example_heap a =
     (if a = 0 then \<lparr>name = ''debug'', directory = ''/d'', commands = Some 10\<rparr>
      else if a = 1 then \<lparr>name = '''', directory = ''/e'', commands = Some 11\<rparr>
      else if a = 2 then \<lparr>name = ''debug'', directory = ''/d'', commands = Some 12\<rparr>
      else \<lparr>name = ''all'', directory = ''/a'', commands = None\<rparr>)"

fun example_compare :: "string \<Rightarrow> string \<Rightarrow> int" where
  "example_compare [] [] = 0"
| "example_compare [] (b # bs) = - 1"
| "example_compare (a # as) [] = 1"
| "example_compare (a # as) (b # bs) =
     (if (of_char a :: nat) < of_char b then - 1
      else if (of_char b :: nat) < of_char a then 1
      else example_compare as bs)"

definition example_preferences :: CppPreferences where
  "example_preferences =
     \<lparr>property = (\<lambda>key. if key = ''cpp.buildConfigurations'' then Some [0, 1, 3] else None),
      scoped = (\<lambda>key resourceUri. None)\<rparr>"

definition example_manager :: "FileStat list \<Rightarrow> CppBuildConfigurationManagerImpl" where
  "example_manager roots =
     CppBuildConfigurationManagerImpl_new example_heap example_compare example_preferences
       (\<lambda>key. None) roots"

definition example_roots :: "FileStat list" where
  "example_roots = [\<lparr>uri = ''file:///A''\<rparr>, \<lparr>uri = ''file:///B''\<rparr>]"

definition example_active :: "(string \<times> objref option) list \<Rightarrow> CppBuildConfigurationManagerImpl" where
  \<comment> \<open>the manager over \<open>example_roots\<close> whose map holds the given entries\<close>
  "example_active es = (example_manager example_roots)\<lparr>activeConfigs := Map_new es\<rparr>"

section \<open>Facts about maps and root resolution\<close>

lemma entries_distinct: "distinct (map fst (entries m))"
  using entries [of m] by simp

lemma map_of_set_entry: "map_of (set_entry k v es) = (map_of es)(k \<mapsto> v)"
  by (induction es) (auto simp: fun_eq_iff)

lemma set_entry_twice: "set_entry k v (set_entry k v es) = set_entry k v es"
  by (induction es) auto

lemma Map_find_empty: "Map_find Map_empty k = None"
  by (simp add: Map_find_def Map_empty.rep_eq)

lemma Map_find_set: "Map_find (Map_set k v m) k' = (if k' = k then Some v else Map_find m k')"
  by (simp add: Map_find_def Map_set.rep_eq map_of_set_entry)

lemma Map_get_set: "Map_get (Map_set k v m) k' = (if k' = k then v else Map_get m k')"
  by (simp add: Map_get_def Map_find_set)

lemma Map_set_twice: "Map_set k v (Map_set k v m) = Map_set k v m"
  by (simp add: entries_inject [symmetric] Map_set.rep_eq set_entry_twice)

lemma workspaceRoot_given: "r \<noteq> [] \<Longrightarrow> workspaceRoot (Some r) this = Inr r"
  by (simp add: workspaceRoot_def)

lemma setActiveConfig_after:
  "workspaceRoot root this = Inr w \<Longrightarrow>
   setActiveConfig config root this = Inr (after_setActiveConfig config w this)"
  by (simp add: setActiveConfig_def saveActiveConfiguration_def fire_def
      getAllActiveConfigs_def Let_def after_setActiveConfig_def)

lemma after_fields:
  "activeConfigs (after_setActiveConfig config w this) = Map_set w config (activeConfigs this)"
  "storageService (after_setActiveConfig config w this) =
     setData (storageService this) ACTIVE_BUILD_CONFIGURATIONS_MAP_STORAGE_KEY
       \<lparr>configs = entries (Map_set w config (activeConfigs this))\<rparr>"
  "fired (after_setActiveConfig config w this) = fired this @
     [ActiveConfigChange2
        (activeConfigurations_loop (entries (Map_set w config (activeConfigs this))) Map_empty),
      ActiveConfigChange config]"
  "workspaceService (after_setActiveConfig config w this) = workspaceService this"
  "heap (after_setActiveConfig config w this) = heap this"
  "localeCompare (after_setActiveConfig config w this) = localeCompare this"
  "cppPreferences (after_setActiveConfig config w this) = cppPreferences this"
  by (simp_all add: after_setActiveConfig_def)

lemma workspaceRoot_after:
  "workspaceRoot root (after_setActiveConfig config w this) = workspaceRoot root this"
  by (simp add: workspaceRoot_def after_fields)

lemma setData_twice: "setData (setData s k d) k d = setData s k d"
  by (simp add: setData_def)

lemma getData_setData: "getData (setData s k d) k = Some d"
  by (simp add: getData_def setData_def)

lemma Map_find_loop:
  "distinct (map fst es) \<Longrightarrow>
   Map_find (activeConfigurations_loop es acc) k =
     (case map_of es k of Some (Some c) \<Rightarrow> Some c | _ \<Rightarrow> Map_find acc k)"
proof (induction es arbitrary: acc)
  case Nil
  then show ?case by simp
next
  case (Cons e es)
  obtain s v where e: "e = (s, v)" by (cases e)
  from Cons.prems e have fresh: "map_of es s = None" and dist: "distinct (map fst es)"
    by (auto simp: map_of_eq_None_iff)
  show ?case
  proof (cases v)
    case None
    with e fresh Cons.IH [OF dist, of acc] show ?thesis by simp
  next
    case (Some c)
    with e fresh Cons.IH [OF dist, of "Map_set s c acc"] show ?thesis
      by (simp add: Map_find_set split: option.splits)
  qed
qed

lemma Map_find_compacted:
  "Map_find (activeConfigurations_loop (entries m) Map_empty) k =
     (case Map_find m k of Some (Some c) \<Rightarrow> Some c | _ \<Rightarrow> None)"
proof -
  have "Map_find (activeConfigurations_loop (entries m) Map_empty) k =
     (case map_of (entries m) k of Some (Some c) \<Rightarrow> Some c | _ \<Rightarrow> Map_find Map_empty k)"
    using entries_distinct by (rule Map_find_loop)
  then show ?thesis
    by (simp add: Map_find_empty Map_find_def [of m] split: option.splits)
qed

lemma set_entry_fresh: "k \<notin> fst ` set es \<Longrightarrow> set_entry k v es = es @ [(k, v)]"
  by (induction es) auto

lemma entries_foldl_set:
  "distinct (map fst (entries acc @ es)) \<Longrightarrow>
   entries (foldl (\<lambda>m e. Map_set (fst e) (snd e) m) acc es) = entries acc @ es"
proof (induction es arbitrary: acc)
  case Nil
  then show ?case by simp
next
  case (Cons e es)
  from Cons.prems have "fst e \<notin> fst ` set (entries acc)"
    by auto
  then have step: "entries (Map_set (fst e) (snd e) acc) = entries acc @ [e]"
    by (simp add: Map_set.rep_eq set_entry_fresh)
  from Cons.prems have "distinct (map fst (entries (Map_set (fst e) (snd e) acc) @ es))"
    by (simp add: step)
  from Cons.IH [OF this] show ?case
    by (simp add: step)
qed

lemma Map_new_entries: "Map_new (entries m) = m"
proof -
  have "entries (Map_new (entries m)) = entries m"
    unfolding Map_new_def
    by (subst entries_foldl_set) (simp_all add: Map_empty.rep_eq entries_distinct)
  then show ?thesis
    by (simp add: entries_inject)
qed

lemma set_insert_by: "set (insert_by cmp x xs) = insert x (set xs)"
  by (induction xs) auto

lemma mset_insert_by: "mset (insert_by cmp x xs) = add_mset x (mset xs)"
  by (induction xs) auto

lemma mset_Array_sort: "mset (Array_sort cmp xs) = mset xs"
  by (induction xs) (simp_all add: Array_sort_def mset_insert_by)

lemma sorted_insert_by:
  assumes total: "\<And>a b. cmp a b \<le> 0 \<or> cmp b a \<le> 0"
    and trans: "\<And>a b c. cmp a b \<le> 0 \<Longrightarrow> cmp b c \<le> 0 \<Longrightarrow> cmp a c \<le> 0"
  shows "sorted_wrt (\<lambda>a b. cmp a b \<le> 0) xs \<Longrightarrow> sorted_wrt (\<lambda>a b. cmp a b \<le> 0) (insert_by cmp x xs)"
proof (induction xs)
  case Nil
  then show ?case by simp
next
  case (Cons y ys)
  show ?case
  proof (cases "cmp x y \<le> 0")
    case True
    with Cons.prems trans [of x y] show ?thesis by auto
  next
    case False
    with total [of x y] have "cmp y x \<le> 0" by simp
    with False Cons show ?thesis by (auto simp: set_insert_by)
  qed
qed

lemma sorted_Array_sort:
  assumes total: "\<And>a b. cmp a b \<le> 0 \<or> cmp b a \<le> 0"
    and trans: "\<And>a b c. cmp a b \<le> 0 \<Longrightarrow> cmp b c \<le> 0 \<Longrightarrow> cmp a c \<le> 0"
  shows "sorted_wrt (\<lambda>a b. cmp a b \<le> 0) (Array_sort cmp xs)"
proof (induction xs)
  case Nil
  then show ?case by (simp add: Array_sort_def)
next
  case (Cons x xs)
  have "sorted_wrt (\<lambda>a b. cmp a b \<le> 0) (insert_by cmp x (Array_sort cmp xs))"
    using total trans Cons.IH by (rule sorted_insert_by)
  then show ?case
    by (simp add: Array_sort_def)
qed

lemma example_compare_total: "example_compare a b \<le> 0 \<or> example_compare b a \<le> 0"
  by (induction a b rule: example_compare.induct) auto

lemma example_compare_trans:
  "example_compare a b \<le> 0 \<Longrightarrow> example_compare b c \<le> 0 \<Longrightarrow> example_compare a c \<le> 0"
proof (induction a arbitrary: b c)
  case Nil
  then show ?case by (cases c) auto
next
  case (Cons x xs)
  then obtain y ys where b: "b = y # ys" by (cases b) auto
  with Cons.prems obtain z zs where c: "c = z # zs" by (cases c) auto
  from Cons.prems Cons.IH [of ys zs] show ?case
    unfolding b c by (auto split: if_splits)
qed

lemma handlePreferencesUpdate_keeps_valid:
  assumes "workspaceRoot None this = Inr w"
    and "Map_get (activeConfigs this) w = Some c"
    and "a \<in> set (getValidConfigs None this)"
    and "name (heap this a) = name (heap this c)"
    and "directory (heap this a) = directory (heap this c)"
  shows "handlePreferencesUpdate this = Inr this"
proof -
  have "list_ex (\<lambda>a. CppBuildConfigurationManagerImpl_equals (heap this a) (heap this c))
       (getValidConfigs None this)"
    using assms(3-5) by (auto simp: list_ex_iff CppBuildConfigurationManagerImpl_equals_def)
  then show ?thesis
    using assms(1,2) by (simp add: handlePreferencesUpdate_def getActiveConfig_def)
qed

lemma Map_get_empty: "Map_get Map_empty k = None"
  by (simp add: Map_get_def Map_find_empty)

lemma filter_set_entry:
  "filter (\<lambda>e. fst e \<noteq> k) (set_entry k v es) = filter (\<lambda>e. fst e \<noteq> k) es"
  by (induction es) auto

lemmas example_defs =
  example_active_def example_manager_def example_roots_def
  CppBuildConfigurationManagerImpl_new_def Map_new_def

lemmas example_configs_defs =
  getValidConfigs_def getConfigs_def example_preferences_def
  CPP_BUILD_CONFIGURATIONS_PREFERENCE_KEY_def example_heap_def Array_sort_def


section \<open>Properties of the manager\<close>

subsection \<open>C1: a configuration that was set is the one read back\<close>

text \<open>
  C1. For every configuration \<open>c\<close> (possibly \<open>undefined\<close>) and every root \<open>r\<close> that is
  not the empty string, \<open>setActiveConfig(c, r)\<close> returns, and right after it
  \<open>getActiveConfig(r)\<close> returns the very reference \<open>c\<close> and \<open>getAllActiveConfigs()\<close> has the
  key \<open>r\<close> with value \<open>c\<close>. Both reads look at the map in memory only: they give the
  same answer whatever the storage service holds at that moment.
\<close>

theorem setActiveConfig_then_getActiveConfig:
  assumes "r \<noteq> []"
  shows "\<exists>this'. setActiveConfig c (Some r) this = Inr this' \<and>
     (\<forall>storage.
        getActiveConfig (Some r) (this'\<lparr>storageService := storage\<rparr>) = Inr c \<and>
        Map_find (getAllActiveConfigs (this'\<lparr>storageService := storage\<rparr>)) r = Some c)"
proof (intro exI conjI allI)
  let ?mgr' = "after_setActiveConfig c r this"
  have root: "workspaceRoot (Some r) this = Inr r"
    using assms by (rule workspaceRoot_given)
  then show "setActiveConfig c (Some r) this = Inr ?mgr'"
    by (rule setActiveConfig_after)
  fix storage
  show "getActiveConfig (Some r) (?mgr'\<lparr>storageService := storage\<rparr>) = Inr c"
    using assms by (simp add: getActiveConfig_def workspaceRoot_def after_fields Map_get_set)
  show "Map_find (getAllActiveConfigs (?mgr'\<lparr>storageService := storage\<rparr>)) r = Some c"
    by (simp add: getAllActiveConfigs_def after_fields Map_find_set)
qed

theorem setActiveConfig_then_getActiveConfig_witness:
  "''file:///A'' \<noteq> [] \<and>
   (\<exists>this'. setActiveConfig (Some 0) (Some ''file:///A'') (example_manager []) = Inr this' \<and>
      (\<forall>storage.
         getActiveConfig (Some ''file:///A'') (this'\<lparr>storageService := storage\<rparr>) =
           Inr (Some 0) \<and>
         Map_find (getAllActiveConfigs (this'\<lparr>storageService := storage\<rparr>)) ''file:///A'' =
           Some (Some 0)))"
  using setActiveConfig_then_getActiveConfig [of "''file:///A''" "Some 0" "example_manager []"]
  by simp

text \<open>
  The empty string is a root argument too, and a falsy one: \<open>setActiveConfig(c, '')\<close>
  stores \<open>c\<close> under the first workspace root. With the single workspace root
  \<open>file:///A\<close>, \<open>getActiveConfig('')\<close> then returns \<open>c\<close>, but \<open>getAllActiveConfigs()\<close> has
  no key \<open>''\<close>.
\<close>

theorem setActiveConfig_empty_root_counterexample:
  "(case setActiveConfig (Some 0) (Some []) (example_manager [\<lparr>uri = ''file:///A''\<rparr>]) of
      Inl e \<Rightarrow> None
    | Inr this' \<Rightarrow>
        Some (getActiveConfig (Some []) this', Map_find (getAllActiveConfigs this') [],
              Map_find (getAllActiveConfigs this') ''file:///A''))
   = Some (Inr (Some 0), None, Some (Some 0))"
  by (simp add: setActiveConfig_def workspaceRoot_def example_defs saveActiveConfiguration_def
      fire_def getAllActiveConfigs_def getActiveConfig_def Let_def Map_get_set Map_find_set
      Map_find_empty)

subsection \<open>C2: revalidation clears a configuration that is no longer valid\<close>

text \<open>
  C2. The handler of the preference change event, run while \<open>c\<close> is the active
  configuration of the default root \<open>w\<close> (the root an omitted argument resolves to) and
  no entry of \<open>getValidConfigs()\<close> has both the name and the directory of \<open>c\<close>, returns;
  afterwards the default root has no active configuration, and the handler has fired
  the multi-root event with a map that has no entry for \<open>w\<close>, then the legacy event with
  \<open>undefined\<close>.
\<close>

theorem handlePreferencesUpdate_clears_invalid:
  assumes root: "workspaceRoot None this = Inr w"
    and active: "Map_get (activeConfigs this) w = Some c"
    and gone: "\<forall>a \<in> set (getValidConfigs None this).
       \<not> (name (heap this a) = name (heap this c) \<and>
          directory (heap this a) = directory (heap this c))"
  shows "\<exists>this' m. handlePreferencesUpdate this = Inr this' \<and>
     getActiveConfig None this' = Inr None \<and>
     Map_get (getAllActiveConfigs this') w = None \<and>
     fired this' = fired this @ [ActiveConfigChange2 m, ActiveConfigChange None] \<and>
     \<not> Map_has m w"
proof (intro exI conjI)
  let ?mgr' = "after_setActiveConfig None w this"
  let ?m = "activeConfigurations_loop (entries (activeConfigs ?mgr')) Map_empty"
  have invalid: "\<not> list_ex
       (\<lambda>a. CppBuildConfigurationManagerImpl_equals (heap this a) (heap this c))
       (getValidConfigs None this)"
    using gone by (simp add: list_ex_iff CppBuildConfigurationManagerImpl_equals_def)
  have "getActiveConfig None this = Inr (Some c)"
    using root active by (simp add: getActiveConfig_def)
  then have "handlePreferencesUpdate this = setActiveConfig None None this"
    using invalid by (simp add: handlePreferencesUpdate_def)
  then show "handlePreferencesUpdate this = Inr ?mgr'"
    using root by (simp add: setActiveConfig_after)
  show "getActiveConfig None ?mgr' = Inr None"
    using root by (simp add: getActiveConfig_def workspaceRoot_after after_fields Map_get_set)
  show "Map_get (getAllActiveConfigs ?mgr') w = None"
    by (simp add: getAllActiveConfigs_def after_fields Map_get_set)
  show "fired ?mgr' = fired this @ [ActiveConfigChange2 ?m, ActiveConfigChange None]"
    by (simp add: after_fields)
  show "\<not> Map_has ?m w"
    by (simp add: Map_has_def Map_find_compacted after_fields Map_find_set)
qed

text \<open>
  Object 1 has a blank name, so it is not among the valid configurations \<open>[3, 0]\<close>;
  it is active at \<open>file:///A\<close>, the first root.
\<close>

theorem handlePreferencesUpdate_clears_invalid_witness:
  "workspaceRoot None (example_active [(''file:///A'', Some 1)]) = Inr ''file:///A'' \<and>
   Map_get (activeConfigs (example_active [(''file:///A'', Some 1)])) ''file:///A'' = Some 1 \<and>
   getValidConfigs None (example_active [(''file:///A'', Some 1)]) = [3, 0] \<and>
   (\<exists>this' m. handlePreferencesUpdate (example_active [(''file:///A'', Some 1)]) = Inr this' \<and>
      getActiveConfig None this' = Inr None \<and>
      Map_get (getAllActiveConfigs this') ''file:///A'' = None \<and>
      fired this' = fired (example_active [(''file:///A'', Some 1)]) @
        [ActiveConfigChange2 m, ActiveConfigChange None] \<and>
      \<not> Map_has m ''file:///A'')"
proof -
  let ?mgr = "example_active [(''file:///A'', Some 1)]"
  have root: "workspaceRoot None ?mgr = Inr ''file:///A''"
    by (simp add: workspaceRoot_def example_defs)
  have active: "Map_get (activeConfigs ?mgr) ''file:///A'' = Some 1"
    by (simp add: example_defs Map_get_set)
  have valid: "getValidConfigs None ?mgr = [3, 0]"
    by (simp add: example_defs example_configs_defs)
  have gone: "\<forall>a \<in> set (getValidConfigs None ?mgr).
       \<not> (name (heap ?mgr a) = name (heap ?mgr 1) \<and>
          directory (heap ?mgr a) = directory (heap ?mgr 1))"
    unfolding valid by (simp add: example_defs example_heap_def)
  from root active valid handlePreferencesUpdate_clears_invalid [OF root active gone]
  show ?thesis by simp
qed

subsection \<open>C3: the valid configurations\<close>

text \<open>
  C3. Whatever list of configurations the preferences hold for a root, \<open>getValidConfigs\<close>
  returns exactly its entries whose name and directory are both non-empty (each as
  often as it is listed), in ascending order of \<open>name\<close> under \<open>localeCompare\<close>. The
  collation is a parameter; what is used of it is that it compares any two strings
  and is transitive, as the language requires of \<open>localeCompare\<close>.
\<close>

theorem getValidConfigs_valid_and_sorted:
  assumes total: "\<forall>a b. localeCompare this a b \<le> 0 \<or> localeCompare this b a \<le> 0"
    and trans: "\<forall>a b c. localeCompare this a b \<le> 0 \<longrightarrow> localeCompare this b c \<le> 0 \<longrightarrow>
       localeCompare this a c \<le> 0"
  shows "(\<forall>a \<in> set (getValidConfigs root this).
            name (heap this a) \<noteq> [] \<and> directory (heap this a) \<noteq> []) \<and>
     sorted_wrt (\<lambda>a b. localeCompare this (name (heap this a)) (name (heap this b)) \<le> 0)
       (getValidConfigs root this) \<and>
     mset (getValidConfigs root this) =
       filter_mset (\<lambda>a. name (heap this a) \<noteq> [] \<and> directory (heap this a) \<noteq> [])
         (mset (getConfigs root this))"
proof (intro conjI)
  let ?cmp = "\<lambda>a b. localeCompare this (name (heap this a)) (name (heap this b))"
  have m: "mset (getValidConfigs root this) =
       filter_mset (\<lambda>a. name (heap this a) \<noteq> [] \<and> directory (heap this a) \<noteq> [])
         (mset (getConfigs root this))"
    by (simp add: getValidConfigs_def mset_Array_sort)
  then show "mset (getValidConfigs root this) =
       filter_mset (\<lambda>a. name (heap this a) \<noteq> [] \<and> directory (heap this a) \<noteq> [])
         (mset (getConfigs root this))" .
  have "set_mset (mset (getValidConfigs root this)) =
       {a \<in> set (getConfigs root this).
          name (heap this a) \<noteq> [] \<and> directory (heap this a) \<noteq> []}"
    by (simp only: m) simp
  then show "\<forall>a \<in> set (getValidConfigs root this).
            name (heap this a) \<noteq> [] \<and> directory (heap this a) \<noteq> []"
    by simp
  have t1: "\<And>a b. ?cmp a b \<le> 0 \<or> ?cmp b a \<le> 0"
    using total by blast
  have t2: "\<And>a b c. ?cmp a b \<le> 0 \<Longrightarrow> ?cmp b c \<le> 0 \<Longrightarrow> ?cmp a c \<le> 0"
    using trans by blast
  show "sorted_wrt (\<lambda>a b. ?cmp a b \<le> 0) (getValidConfigs root this)"
    unfolding getValidConfigs_def using t1 t2 by (rule sorted_Array_sort)
qed

text \<open>
  The preferences list the objects 0 (\<open>debug\<close>), 1 (blank name) and 3 (\<open>all\<close>); the
  collation orders by code unit. The result drops 1 and puts \<open>all\<close> before \<open>debug\<close>.
\<close>

theorem getValidConfigs_valid_and_sorted_witness:
  "getConfigs None (example_manager []) = [0, 1, 3] \<and>
   getValidConfigs None (example_manager []) = [3, 0] \<and>
   sorted_wrt (\<lambda>a b. example_compare (name (example_heap a)) (name (example_heap b)) \<le> 0)
     (getValidConfigs None (example_manager [])) \<and>
   mset (getValidConfigs None (example_manager [])) = {#0, 3#}"
proof -
  let ?mgr = "example_manager []"
  have total: "\<forall>a b. localeCompare ?mgr a b \<le> 0 \<or> localeCompare ?mgr b a \<le> 0"
    by (simp add: example_defs example_compare_total)
  have trans: "\<forall>a b c. localeCompare ?mgr a b \<le> 0 \<longrightarrow> localeCompare ?mgr b c \<le> 0 \<longrightarrow>
       localeCompare ?mgr a c \<le> 0"
    using example_compare_trans by (simp add: example_defs)
  have raw: "getConfigs None ?mgr = [0, 1, 3]"
    by (simp add: example_defs example_configs_defs)
  have valid: "getValidConfigs None ?mgr = [3, 0]"
    by (simp add: example_defs example_configs_defs)
  have fields: "heap ?mgr = example_heap" "localeCompare ?mgr = example_compare"
    by (simp_all add: example_defs)
  from getValidConfigs_valid_and_sorted [OF total trans, of None] raw valid
  show ?thesis
    by (simp add: fields example_heap_def)
qed

subsection \<open>C4: no workspace root\<close>

text \<open>
  C4. With an empty list of workspace roots and the root argument omitted,
  \<open>getActiveConfig\<close> and \<open>setActiveConfig\<close> do not return: element 0 of the empty list is
  \<open>undefined\<close>, and reading its \<open>uri\<close> throws a \<open>TypeError\<close>. Nothing is returned, stored
  or fired.
\<close>

theorem no_workspace_root_throws:
  "getActiveConfig None (example_manager []) = Inl TypeError \<and>
   setActiveConfig (Some 0) None (example_manager []) = Inl TypeError \<and>
   setActiveConfig None None (example_manager []) = Inl TypeError"
  by (simp add: getActiveConfig_def setActiveConfig_def workspaceRoot_def example_defs)

subsection \<open>C5: what the multi-root event carries\<close>

text \<open>
  C5. Every call of \<open>setActiveConfig\<close> that resolves its target root \<open>w\<close> returns and
  fires, on the multi-root event, a map whose entries are exactly the roots that hold
  a configuration other than \<open>undefined\<close> in the manager's map after the update, each
  with that configuration, and then fires the legacy event with the argument. In
  particular, when the call clears root \<open>w\<close> (\<open>config\<close> is \<open>undefined\<close>), the fired map has
  no entry for \<open>w\<close>, while \<open>getAllActiveConfigs()\<close> has the key \<open>w\<close>, holding \<open>undefined\<close>.
\<close>

theorem setActiveConfig_fires_compacted_map:
  assumes "workspaceRoot root this = Inr w"
  shows "\<exists>this' m. setActiveConfig config root this = Inr this' \<and>
     fired this' = fired this @ [ActiveConfigChange2 m, ActiveConfigChange config] \<and>
     (\<forall>r c. Map_find m r = Some c \<longleftrightarrow>
        Map_find (getAllActiveConfigs this') r = Some (Some c)) \<and>
     (\<forall>r. Map_has m r \<longleftrightarrow> Map_get (getAllActiveConfigs this') r \<noteq> None) \<and>
     (config = None \<longrightarrow>
        \<not> Map_has m w \<and> Map_find (getAllActiveConfigs this') w = Some None)"
proof (intro exI conjI)
  let ?mgr' = "after_setActiveConfig config w this"
  let ?m = "activeConfigurations_loop (entries (activeConfigs ?mgr')) Map_empty"
  show "setActiveConfig config root this = Inr ?mgr'"
    using assms by (rule setActiveConfig_after)
  show "fired ?mgr' = fired this @ [ActiveConfigChange2 ?m, ActiveConfigChange config]"
    by (simp add: after_fields)
  show "\<forall>r c. Map_find ?m r = Some c \<longleftrightarrow>
      Map_find (getAllActiveConfigs ?mgr') r = Some (Some c)"
    by (simp add: Map_find_compacted getAllActiveConfigs_def split: option.splits)
  show "\<forall>r. Map_has ?m r \<longleftrightarrow> Map_get (getAllActiveConfigs ?mgr') r \<noteq> None"
    by (simp add: Map_has_def Map_get_def Map_find_compacted getAllActiveConfigs_def
        split: option.splits)
  show "config = None \<longrightarrow>
      \<not> Map_has ?m w \<and> Map_find (getAllActiveConfigs ?mgr') w = Some None"
    by (simp add: Map_has_def Map_find_compacted getAllActiveConfigs_def after_fields
        Map_find_set)
qed

text \<open>
  The scenario: object 0 is active at \<open>file:///A\<close> and object 3 at \<open>file:///B\<close>; root
  \<open>file:///A\<close> is cleared.
\<close>

theorem setActiveConfig_fires_compacted_map_witness:
  "workspaceRoot (Some ''file:///A'')
     (example_active [(''file:///A'', Some 0), (''file:///B'', Some 3)]) = Inr ''file:///A'' \<and>
   Map_get (activeConfigs (example_active [(''file:///A'', Some 0), (''file:///B'', Some 3)]))
     ''file:///A'' = Some 0 \<and>
   (\<exists>this' m.
      setActiveConfig None (Some ''file:///A'')
        (example_active [(''file:///A'', Some 0), (''file:///B'', Some 3)]) = Inr this' \<and>
      fired this' = [ActiveConfigChange2 m, ActiveConfigChange None] \<and>
      (\<forall>r c. Map_find m r = Some c \<longleftrightarrow>
         Map_find (getAllActiveConfigs this') r = Some (Some c)) \<and>
      (\<forall>r. Map_has m r \<longleftrightarrow> Map_get (getAllActiveConfigs this') r \<noteq> None) \<and>
      \<not> Map_has m ''file:///A'' \<and>
      Map_find (getAllActiveConfigs this') ''file:///A'' = Some None)"
proof -
  let ?mgr = "example_active [(''file:///A'', Some 0), (''file:///B'', Some 3)]"
  have root: "workspaceRoot (Some ''file:///A'') ?mgr = Inr ''file:///A''"
    by (simp add: workspaceRoot_def)
  have active: "Map_get (activeConfigs ?mgr) ''file:///A'' = Some 0"
    by (simp add: example_defs Map_get_set)
  have unfired: "fired ?mgr = []"
    by (simp add: example_defs)
  from setActiveConfig_fires_compacted_map [OF root, of None] root active
  show ?thesis
    by (simp add: unfired)
qed

lemma scenario_clear_root_A:
  "(case setActiveConfig None (Some ''file:///A'')
      (example_active [(''file:///A'', Some 0), (''file:///B'', Some 3)]) of
      Inl e \<Rightarrow> None
    | Inr this' \<Rightarrow>
        Some (entries (getAllActiveConfigs this'),
              map (\<lambda>e. case e of ActiveConfigChange2 m \<Rightarrow> Inl (entries m)
                               | ActiveConfigChange c \<Rightarrow> Inr c) (fired this')))
   = Some ([(''file:///A'', None), (''file:///B'', Some 3)],
           [Inl [(''file:///B'', 3)], Inr None])"
  by (simp add: setActiveConfig_def workspaceRoot_def example_defs saveActiveConfiguration_def
      fire_def getAllActiveConfigs_def Let_def Map_set.rep_eq Map_empty.rep_eq)

subsection \<open>C6: saving and loading the map\<close>

text \<open>
  C6. For every map \<open>M\<close> of active configurations: after \<open>saveActiveConfiguration(M)\<close>, a
  manager newly constructed over the same storage that runs \<open>loadActiveConfiguration\<close>
  holds a map equal to \<open>M\<close>: the same roots in the same order, each with the same
  configuration reference, and \<open>undefined\<close> where \<open>M\<close> holds \<open>undefined\<close>; every loaded
  configuration is \<open>equals\<close> to the saved one. The storage service is the one of the
  contract: it hands back the value it was given.
\<close>

theorem save_then_load_roundtrip:
  "activeConfigs (loadActiveConfiguration
      (CppBuildConfigurationManagerImpl_new h cmp prefs
         (storageService (saveActiveConfiguration M this)) roots)) = M \<and>
   entries (getAllActiveConfigs (loadActiveConfiguration
      (CppBuildConfigurationManagerImpl_new h cmp prefs
         (storageService (saveActiveConfiguration M this)) roots))) = entries M \<and>
   list_all2 (\<lambda>loaded saved. fst loaded = fst saved \<and>
        rel_option (\<lambda>a b. equals (h a) (h b)) (snd loaded) (snd saved))
     (entries (getAllActiveConfigs (loadActiveConfiguration
        (CppBuildConfigurationManagerImpl_new h cmp prefs
           (storageService (saveActiveConfiguration M this)) roots))))
     (entries M)"
proof -
  have loaded: "activeConfigs (loadActiveConfiguration
      (CppBuildConfigurationManagerImpl_new h cmp prefs
         (storageService (saveActiveConfiguration M this)) roots)) = M"
    by (simp add: loadActiveConfiguration_def saveActiveConfiguration_def
        CppBuildConfigurationManagerImpl_new_def getData_setData Map_new_entries)
  have same: "list_all2 (\<lambda>loaded saved. fst loaded = fst saved \<and>
        rel_option (\<lambda>a b. equals (h a) (h b)) (snd loaded) (snd saved)) es es" for es
    by (rule list_all2_refl) (simp add: option.rel_refl equals_def)
  from loaded same show ?thesis
    by (simp add: getAllActiveConfigs_def)
qed

subsection \<open>C7: setting the same configuration twice\<close>

text \<open>
  C7. For every configuration \<open>c\<close> and every root argument that resolves to a root (every
  non-empty string does), two calls \<open>setActiveConfig(c, r)\<close> in succession both return;
  the second leaves the map and the stored snapshot exactly as the first left them,
  and each of the two calls fires the multi-root event and then the legacy event:
  unfired is coalesced although the value did not change.
\<close>

theorem setActiveConfig_twice:
  assumes "workspaceRoot root this = Inr w"
  shows "\<exists>this1 this2 m.
     setActiveConfig c root this = Inr this1 \<and> setActiveConfig c root this1 = Inr this2 \<and>
     activeConfigs this2 = activeConfigs this1 \<and>
     storageService this2 = storageService this1 \<and>
     fired this1 = fired this @ [ActiveConfigChange2 m, ActiveConfigChange c] \<and>
     fired this2 = fired this1 @ [ActiveConfigChange2 m, ActiveConfigChange c]"
proof (intro exI conjI)
  let ?mgr1 = "after_setActiveConfig c w this"
  let ?mgr2 = "after_setActiveConfig c w ?mgr1"
  show "setActiveConfig c root this = Inr ?mgr1"
    using assms by (rule setActiveConfig_after)
  have "workspaceRoot root ?mgr1 = Inr w"
    using assms by (simp add: workspaceRoot_after)
  then show "setActiveConfig c root ?mgr1 = Inr ?mgr2"
    by (rule setActiveConfig_after)
  show "activeConfigs ?mgr2 = activeConfigs ?mgr1"
    by (simp add: after_fields Map_set_twice)
  show "storageService ?mgr2 = storageService ?mgr1"
    by (simp add: after_fields Map_set_twice setData_twice)
  show "fired ?mgr1 = fired this @
     [ActiveConfigChange2
        (activeConfigurations_loop (entries (Map_set w c (activeConfigs this))) Map_empty),
      ActiveConfigChange c]"
    by (simp add: after_fields)
  show "fired ?mgr2 = fired ?mgr1 @
     [ActiveConfigChange2
        (activeConfigurations_loop (entries (Map_set w c (activeConfigs this))) Map_empty),
      ActiveConfigChange c]"
    by (simp add: after_fields Map_set_twice)
qed

theorem setActiveConfig_twice_witness:
  "workspaceRoot (Some ''file:///B'') (example_active [(''file:///A'', Some 0)]) =
     Inr ''file:///B'' \<and>
   (\<exists>this1 this2 m.
      setActiveConfig (Some 3) (Some ''file:///B'') (example_active [(''file:///A'', Some 0)]) =
        Inr this1 \<and>
      setActiveConfig (Some 3) (Some ''file:///B'') this1 = Inr this2 \<and>
      activeConfigs this2 = activeConfigs this1 \<and>
      storageService this2 = storageService this1 \<and>
      fired this1 = [ActiveConfigChange2 m, ActiveConfigChange (Some 3)] \<and>
      fired this2 = [ActiveConfigChange2 m, ActiveConfigChange (Some 3),
                     ActiveConfigChange2 m, ActiveConfigChange (Some 3)])"
proof -
  let ?mgr = "example_active [(''file:///A'', Some 0)]"
  have root: "workspaceRoot (Some ''file:///B'') ?mgr = Inr ''file:///B''"
    by (simp add: workspaceRoot_def)
  have unfired: "fired ?mgr = []"
    by (simp add: example_defs)
  from setActiveConfig_twice [OF root, of "Some 3"] obtain this1 this2 m where
    calls: "setActiveConfig (Some 3) (Some ''file:///B'') ?mgr = Inr this1"
      "setActiveConfig (Some 3) (Some ''file:///B'') this1 = Inr this2"
      "activeConfigs this2 = activeConfigs this1"
      "storageService this2 = storageService this1"
      "fired this1 = fired ?mgr @ [ActiveConfigChange2 m, ActiveConfigChange (Some 3)]"
      "fired this2 = fired this1 @ [ActiveConfigChange2 m, ActiveConfigChange (Some 3)]"
    by (elim exE conjE)
  from calls(5,6) have
    "fired this1 = [ActiveConfigChange2 m, ActiveConfigChange (Some 3)]"
    "fired this2 = [ActiveConfigChange2 m, ActiveConfigChange (Some 3),
                     ActiveConfigChange2 m, ActiveConfigChange (Some 3)]"
    by (simp_all add: unfired)
  with root calls(1-4) show ?thesis
    by (intro conjI exI [of _ this1] exI [of _ this2] exI [of _ m])
qed

subsection \<open>C8: the other roots are left alone\<close>

text \<open>
  C8. For every root \<open>r\<close> that is not the empty string and every root \<open>r'\<close> other than
  \<open>r\<close>, a call \<open>setActiveConfig(c, r)\<close> returns, replaces the entry of \<open>r\<close> by \<open>c\<close>, and leaves
  the entry of \<open>r'\<close> as it was: holding the same configuration, holding \<open>undefined\<close>, or
  missing. The entries of the other roots also keep their order.
\<close>

theorem setActiveConfig_other_roots_unchanged:
  assumes "r \<noteq> []" and "r' \<noteq> r"
  shows "\<exists>this'. setActiveConfig c (Some r) this = Inr this' \<and>
     Map_find (getAllActiveConfigs this') r = Some c \<and>
     Map_find (getAllActiveConfigs this') r' = Map_find (getAllActiveConfigs this) r' \<and>
     filter (\<lambda>e. fst e \<noteq> r) (entries (getAllActiveConfigs this')) =
       filter (\<lambda>e. fst e \<noteq> r) (entries (getAllActiveConfigs this))"
proof (intro exI conjI)
  let ?mgr' = "after_setActiveConfig c r this"
  have "workspaceRoot (Some r) this = Inr r"
    using assms(1) by (rule workspaceRoot_given)
  then show "setActiveConfig c (Some r) this = Inr ?mgr'"
    by (rule setActiveConfig_after)
  show "Map_find (getAllActiveConfigs ?mgr') r = Some c"
    by (simp add: getAllActiveConfigs_def after_fields Map_find_set)
  show "Map_find (getAllActiveConfigs ?mgr') r' = Map_find (getAllActiveConfigs this) r'"
    using assms(2) by (simp add: getAllActiveConfigs_def after_fields Map_find_set)
  show "filter (\<lambda>e. fst e \<noteq> r) (entries (getAllActiveConfigs ?mgr')) =
       filter (\<lambda>e. fst e \<noteq> r) (entries (getAllActiveConfigs this))"
    by (simp add: getAllActiveConfigs_def after_fields Map_set.rep_eq filter_set_entry)
qed

theorem setActiveConfig_other_roots_unchanged_witness:
  "''file:///B'' \<noteq> [] \<and> ''file:///A'' \<noteq> ''file:///B'' \<and>
   Map_find (getAllActiveConfigs (example_active [(''file:///A'', Some 0)])) ''file:///A'' =
     Some (Some 0) \<and>
   (\<exists>this'. setActiveConfig (Some 3) (Some ''file:///B'')
        (example_active [(''file:///A'', Some 0)]) = Inr this' \<and>
      Map_find (getAllActiveConfigs this') ''file:///B'' = Some (Some 3) \<and>
      Map_find (getAllActiveConfigs this') ''file:///A'' = Some (Some 0))"
proof -
  let ?mgr = "example_active [(''file:///A'', Some 0)]"
  have before: "Map_find (getAllActiveConfigs ?mgr) ''file:///A'' = Some (Some 0)"
    by (simp add: getAllActiveConfigs_def example_defs Map_find_set)
  have given: "''file:///B'' \<noteq> []" and other: "''file:///A'' \<noteq> ''file:///B''"
    by simp_all
  from setActiveConfig_other_roots_unchanged [OF given other, of "Some 3" ?mgr]
  obtain this' where
    "setActiveConfig (Some 3) (Some ''file:///B'') ?mgr = Inr this'"
    "Map_find (getAllActiveConfigs this') ''file:///B'' = Some (Some 3)"
    "Map_find (getAllActiveConfigs this') ''file:///A'' =
       Map_find (getAllActiveConfigs ?mgr) ''file:///A''"
    by (elim exE conjE)
  with before given other show ?thesis
    by (intro conjI exI [of _ this']) simp_all
qed

text \<open>
  With the empty string for \<open>r\<close> the call writes to the first workspace root: here
  \<open>r' = file:///A\<close> differs from \<open>r = ''\<close>, held object 0 before the call and holds object
  3 after it.
\<close>

theorem setActiveConfig_other_roots_empty_root_counterexample:
  "''file:///A'' \<noteq> [] \<and>
   Map_find (getAllActiveConfigs (example_active [(''file:///A'', Some 0)])) ''file:///A'' =
     Some (Some 0) \<and>
   (case setActiveConfig (Some 3) (Some []) (example_active [(''file:///A'', Some 0)]) of
      Inl e \<Rightarrow> None
    | Inr this' \<Rightarrow> Some (Map_find (getAllActiveConfigs this') ''file:///A''))
   = Some (Some (Some 3))"
  by (simp add: setActiveConfig_def workspaceRoot_def example_defs saveActiveConfiguration_def
      fire_def getAllActiveConfigs_def Let_def Map_find_set)

subsection \<open>C9: the two notions of equality\<close>

text \<open>
  C9. The method \<open>equals\<close> of the class, used for revalidation, holds exactly when name
  and directory agree; the exported function \<open>equals\<close> holds exactly when name and
  directory agree and \<open>commands\<close> is the same reference (or \<open>undefined\<close> in both). So
  the exported equality implies the one of the class, and two configurations that
  differ in \<open>commands\<close> only are equal for revalidation and not equal for the exported
  function.
\<close>

theorem equals_and_revalidation_equals:
  "(CppBuildConfigurationManagerImpl_equals a b \<longleftrightarrow>
      name a = name b \<and> directory a = directory b) \<and>
   (equals a b \<longleftrightarrow>
      name a = name b \<and> directory a = directory b \<and> commands a = commands b) \<and>
   (equals a b \<longrightarrow> CppBuildConfigurationManagerImpl_equals a b) \<and>
   (name a = name b \<and> directory a = directory b \<and> commands a \<noteq> commands b \<longrightarrow>
      CppBuildConfigurationManagerImpl_equals a b \<and> \<not> equals a b)"
  by (simp add: CppBuildConfigurationManagerImpl_equals_def equals_def)

text \<open>Objects 0 and 2 differ in \<open>commands\<close> only.\<close>

theorem equals_and_revalidation_equals_witness:
  "name (example_heap 0) = name (example_heap 2) \<and>
   directory (example_heap 0) = directory (example_heap 2) \<and>
   commands (example_heap 0) \<noteq> commands (example_heap 2) \<and>
   CppBuildConfigurationManagerImpl_equals (example_heap 0) (example_heap 2) \<and>
   \<not> equals (example_heap 0) (example_heap 2) \<and>
   equals (example_heap 0) (example_heap 0)"
proof -
  have fields: "name (example_heap 0) = name (example_heap 2)"
    "directory (example_heap 0) = directory (example_heap 2)"
    "commands (example_heap 0) \<noteq> commands (example_heap 2)"
    by (simp_all add: example_heap_def)
  from equals_and_revalidation_equals [of "example_heap 0" "example_heap 2"] fields
  have "CppBuildConfigurationManagerImpl_equals (example_heap 0) (example_heap 2)"
    "\<not> equals (example_heap 0) (example_heap 2)"
    by simp_all
  moreover have "equals (example_heap 0) (example_heap 0)"
    by (simp add: equals_def)
  ultimately show ?thesis
    using fields by simp
qed

subsection \<open>C10: revalidation with nothing active\<close>

text \<open>
  C10. The handler of the preference change event, run while the default root \<open>w\<close> has
  no active configuration (no entry, or an entry holding \<open>undefined\<close>), does what
  \<open>setActiveConfig(undefined)\<close> does: it returns, the storage service holds the whole
  map again, and the multi-root event and then the legacy event, with \<open>undefined\<close>, are
  fired. What \<open>get\<close> returns for any root is the same before and after, and the fired
  map holds the configurations that were active before the call; the only difference
  in the map is that the key \<open>w\<close> is present afterwards.
\<close>

theorem handlePreferencesUpdate_with_nothing_active:
  assumes root: "workspaceRoot None this = Inr w"
    and inactive: "Map_get (activeConfigs this) w = None"
  shows "\<exists>this' m. handlePreferencesUpdate this = Inr this' \<and>
     setActiveConfig None None this = Inr this' \<and>
     getData (storageService this') ACTIVE_BUILD_CONFIGURATIONS_MAP_STORAGE_KEY =
       Some \<lparr>configs = entries (getAllActiveConfigs this')\<rparr> \<and>
     fired this' = fired this @ [ActiveConfigChange2 m, ActiveConfigChange None] \<and>
     (\<forall>r. Map_get (getAllActiveConfigs this') r = Map_get (getAllActiveConfigs this) r) \<and>
     (\<forall>r. Map_find m r = Map_get (getAllActiveConfigs this) r) \<and>
     getAllActiveConfigs this' = Map_set w None (getAllActiveConfigs this)"
proof (intro exI conjI)
  let ?mgr' = "after_setActiveConfig None w this"
  let ?m = "activeConfigurations_loop (entries (activeConfigs ?mgr')) Map_empty"
  have "getActiveConfig None this = Inr None"
    using root inactive by (simp add: getActiveConfig_def)
  then have "handlePreferencesUpdate this = setActiveConfig None None this"
    by (simp add: handlePreferencesUpdate_def)
  then show "handlePreferencesUpdate this = Inr ?mgr'"
    using root by (simp add: setActiveConfig_after)
  show "setActiveConfig None None this = Inr ?mgr'"
    using root by (rule setActiveConfig_after)
  show "getData (storageService ?mgr') ACTIVE_BUILD_CONFIGURATIONS_MAP_STORAGE_KEY =
       Some \<lparr>configs = entries (getAllActiveConfigs ?mgr')\<rparr>"
    by (simp add: after_fields getData_setData getAllActiveConfigs_def)
  show "fired ?mgr' = fired this @ [ActiveConfigChange2 ?m, ActiveConfigChange None]"
    by (simp add: after_fields)
  show same: "\<forall>r. Map_get (getAllActiveConfigs ?mgr') r = Map_get (getAllActiveConfigs this) r"
    using inactive by (simp add: getAllActiveConfigs_def after_fields Map_get_set)
  have "Map_find ?m r = Map_get (activeConfigs ?mgr') r" for r
    by (simp add: Map_find_compacted Map_get_def split: option.splits)
  with same show "\<forall>r. Map_find ?m r = Map_get (getAllActiveConfigs this) r"
    by (simp add: getAllActiveConfigs_def)
  show "getAllActiveConfigs ?mgr' = Map_set w None (getAllActiveConfigs this)"
    by (simp add: getAllActiveConfigs_def after_fields)
qed

text \<open>A new manager over the roots \<open>file:///A\<close> and \<open>file:///B\<close>: its map is empty.\<close>

theorem handlePreferencesUpdate_with_nothing_active_witness:
  "workspaceRoot None (example_manager example_roots) = Inr ''file:///A'' \<and>
   Map_get (activeConfigs (example_manager example_roots)) ''file:///A'' = None \<and>
   (\<exists>this' m. handlePreferencesUpdate (example_manager example_roots) = Inr this' \<and>
      setActiveConfig None None (example_manager example_roots) = Inr this' \<and>
      getData (storageService this') ACTIVE_BUILD_CONFIGURATIONS_MAP_STORAGE_KEY =
        Some \<lparr>configs = [(''file:///A'', None)]\<rparr> \<and>
      fired this' = [ActiveConfigChange2 m, ActiveConfigChange None] \<and>
      (\<forall>r. Map_find m r = None))"
proof -
  let ?mgr = "example_manager example_roots"
  have root: "workspaceRoot None ?mgr = Inr ''file:///A''"
    by (simp add: workspaceRoot_def example_defs)
  have inactive: "Map_get (activeConfigs ?mgr) ''file:///A'' = None"
    by (simp add: example_defs Map_get_empty)
  have unfired: "fired ?mgr = []" and empty: "getAllActiveConfigs ?mgr = Map_empty"
    by (simp_all add: example_defs getAllActiveConfigs_def)
  from handlePreferencesUpdate_with_nothing_active [OF root inactive]
  obtain this' m where after:
    "handlePreferencesUpdate ?mgr = Inr this'"
    "setActiveConfig None None ?mgr = Inr this'"
    "getData (storageService this') ACTIVE_BUILD_CONFIGURATIONS_MAP_STORAGE_KEY =
       Some \<lparr>configs = entries (getAllActiveConfigs this')\<rparr>"
    "fired this' = fired ?mgr @ [ActiveConfigChange2 m, ActiveConfigChange None]"
    "\<forall>r. Map_find m r = Map_get (getAllActiveConfigs ?mgr) r"
    "getAllActiveConfigs this' = Map_set ''file:///A'' None (getAllActiveConfigs ?mgr)"
    by (elim exE conjE)
  from after(3,6) have stored:
    "getData (storageService this') ACTIVE_BUILD_CONFIGURATIONS_MAP_STORAGE_KEY =
       Some \<lparr>configs = [(''file:///A'', None)]\<rparr>"
    by (simp add: empty Map_set.rep_eq Map_empty.rep_eq)
  from after(4) have events: "fired this' = [ActiveConfigChange2 m, ActiveConfigChange None]"
    by (simp add: unfired)
  from after(5) have none: "\<forall>r. Map_find m r = None"
    by (simp add: empty Map_get_empty)
  from root inactive after(1,2) stored events none show ?thesis
    by (intro conjI exI [of _ this'] exI [of _ m])
qed

end
